theory Spec2Isabelle
  imports Main "HOL-Library.Sublist"
begin

section \<open>Python strings\<close>

text \<open>
  Python \<^verbatim>\<open>str\<close> values are modelled as \<^typ>\<open>string\<close>. The functions below are
  the \<^verbatim>\<open>str\<close> methods the sources call: \<^verbatim>\<open>s.startswith(p)\<close>,
  \<^verbatim>\<open>s.endswith(p)\<close>, \<^verbatim>\<open>sub in s\<close>, \<^verbatim>\<open>s.split("/")\<close> and
  \<^verbatim>\<open>"/".join(parts)\<close>.
\<close>

fun startswith :: "string \<Rightarrow> string \<Rightarrow> bool" where
  "startswith s [] = True"
| "startswith [] (c # p) = False"
| "startswith (x # s) (c # p) = (x = c \<and> startswith s p)"

definition endswith :: "string \<Rightarrow> string \<Rightarrow> bool" where
  "endswith s p = startswith (rev s) (rev p)"


fun split_sep :: "string \<Rightarrow> string list" where
  "split_sep [] = [[]]"
| "split_sep (c # cs) =
     (if c = CHR ''/'' then [] # split_sep cs
      else (c # hd (split_sep cs)) # tl (split_sep cs))"

fun join_sep :: "string list \<Rightarrow> string" where
  "join_sep [] = []"
| "join_sep [w] = w"
| "join_sep (w # v # ws) = w @ ''/'' @ join_sep (v # ws)"

section \<open>\<^verbatim>\<open>os.path\<close> on POSIX\<close>

text \<open>
  \<^verbatim>\<open>from os.path import abspath, join\<close> (geoips_config.py). The definitions follow
  CPython's \<^verbatim>\<open>posixpath\<close>: \<^verbatim>\<open>join\<close> restarts at an absolute second argument and
  does not resolve \<^verbatim>\<open>..\<close>; \<^verbatim>\<open>normpath\<close> drops empty and \<^verbatim>\<open>.\<close> components,
  cancels \<^verbatim>\<open>..\<close> against the component before it, and keeps exactly two leading
  slashes; \<^verbatim>\<open>abspath\<close> joins a relative path onto the working directory and
  normalises. The working directory (\<^verbatim>\<open>os.getcwd()\<close>) is the parameter \<open>cwd\<close>.
\<close>

definition isabs :: "string \<Rightarrow> bool" where
  "isabs p = startswith p ''/''"

definition join :: "string \<Rightarrow> string \<Rightarrow> string" where
  "join a b =
     (if startswith b ''/'' then b
      else if a = [] \<or> endswith a ''/'' then a @ b
      else a @ ''/'' @ b)"

fun norm_comps :: "nat \<Rightarrow> string list \<Rightarrow> string list \<Rightarrow> string list" where
  "norm_comps i new_comps [] = new_comps"
| "norm_comps i new_comps (cmp # comps) =
     (if cmp = [] \<or> cmp = ''.'' then norm_comps i new_comps comps
      else if cmp \<noteq> ''..'' \<or> (i = 0 \<and> new_comps = [])
              \<or> (new_comps \<noteq> [] \<and> last new_comps = ''..'')
           then norm_comps i (new_comps @ [cmp]) comps
      else if new_comps \<noteq> [] then norm_comps i (butlast new_comps) comps
      else norm_comps i new_comps comps)"

definition initial_slashes :: "string \<Rightarrow> nat" where
  "initial_slashes path =
     (if startswith path ''/''
      then (if startswith path ''//'' \<and> \<not> startswith path ''///'' then 2 else 1)
      else 0)"

definition normpath :: "string \<Rightarrow> string" where
  "normpath path =
     (if path = [] then ''.''
      else let i = initial_slashes path;
               p = replicate i CHR ''/'' @ join_sep (norm_comps i [] (split_sep path))
           in if p = [] then ''.'' else p)"

definition abspath :: "string \<Rightarrow> string \<Rightarrow> string" where
  "abspath cwd path = normpath (if isabs path then path else join cwd path)"

definition dirname :: "string \<Rightarrow> string" where
  "dirname p =
     (let head = rev (dropWhile (\<lambda>c. c \<noteq> CHR ''/'') (rev p))
      in if head \<noteq> [] \<and> head \<noteq> replicate (length head) CHR ''/''
         then rev (dropWhile (\<lambda>c. c = CHR ''/'') (rev head))
         else head)"

definition basename :: "string \<Rightarrow> string" where
  "basename p = rev (takeWhile (\<lambda>c. c \<noteq> CHR ''/'') (rev p))"

section \<open>Exceptions and return values\<close>

text \<open>
  Every \<^verbatim>\<open>raise\<close> of the sources and every exception of the libraries they call
  is a value of \<open>exn\<close>; a function that may raise returns \<open>exn + 'a\<close> with
  \<open>Inl\<close> for the exception. \<open>ParserError\<close> is argparse's
  \<^verbatim>\<open>parser.error(message)\<close>, which prints the message and exits the process with
  status 2 (a \<^verbatim>\<open>SystemExit\<close>). A function without a \<^verbatim>\<open>return\<close> statement
  returns \<open>PyNone\<close>.
\<close>

datatype exn =
    SystemExit string
  | ParserError string
  | KeyError string
  | AttributeError string
  | TypeError
  | ValueError
  | HTTPError int
  | RequestException string
  | ReadError
  | FileNotFoundError string
  | FileExistsError string
  | NotADirectoryError string
  | IsADirectoryError string
  | CalledProcessError string

datatype pyval = PyNone | PyInt int

fun is_Exception :: "exn \<Rightarrow> bool" where
  "is_Exception (SystemExit m) = False"
| "is_Exception (ParserError m) = False"
| "is_Exception e = True"

function str_nat :: "nat \<Rightarrow> string" where
  "str_nat n =
     (if n < 10 then [''0123456789'' ! n]
      else str_nat (n div 10) @ [''0123456789'' ! (n mod 10)])"
  by pat_completeness auto
termination
  by (relation "measure id") auto

declare str_nat.simps [simp del]

definition str_int :: "int \<Rightarrow> string" where
  "str_int i = (if i < 0 then ''-'' @ str_nat (nat (- i)) else str_nat (nat i))"

section \<open>The filesystem\<close>

text \<open>
  The filesystem is a finite table from normalised absolute paths to nodes. A path given
  to an operation is resolved with \<open>abspath\<close>, that is lexically: this is what the
  operating system does when no symbolic link is involved and every directory named
  before a \<^verbatim>\<open>..\<close> exists. \<open>open_wb\<close> is \<^verbatim>\<open>open(p, "wb")\<close> followed by
  writing the given bytes and closing; \<open>mkdir\<close>, \<open>makedirs\<close> and \<open>listdir\<close> are the
  functions of \<^verbatim>\<open>os\<close>.
\<close>

datatype node = RegFile string | Dir

type_synonym filesystem = "(string \<times> node) list"

fun fs_put :: "string \<Rightarrow> node \<Rightarrow> filesystem \<Rightarrow> filesystem" where
  "fs_put k v [] = [(k, v)]"
| "fs_put k v ((k', v') # fs) =
     (if k' = k then (k, v) # fs else (k', v') # fs_put k v fs)"

definition exists :: "string \<Rightarrow> filesystem \<Rightarrow> string \<Rightarrow> bool" where
  "exists cwd fs p = (map_of fs (abspath cwd p) \<noteq> None)"

definition open_wb :: "string \<Rightarrow> filesystem \<Rightarrow> string \<Rightarrow> string \<Rightarrow> exn + filesystem" where
  "open_wb cwd fs p bytes =
     (let k = abspath cwd p in
      case map_of fs k of
        Some Dir \<Rightarrow> Inl (IsADirectoryError p)
      | _ \<Rightarrow>
         (case map_of fs (dirname k) of
            None \<Rightarrow> Inl (FileNotFoundError p)
          | Some (RegFile _) \<Rightarrow> Inl (NotADirectoryError p)
          | Some Dir \<Rightarrow> Inr (fs_put k (RegFile bytes) fs)))"

definition mkdir :: "string \<Rightarrow> filesystem \<Rightarrow> string \<Rightarrow> exn + filesystem" where
  "mkdir cwd fs p =
     (let k = abspath cwd p in
      if map_of fs k \<noteq> None then Inl (FileExistsError p)
      else case map_of fs (dirname k) of
             None \<Rightarrow> Inl (FileNotFoundError p)
           | Some (RegFile _) \<Rightarrow> Inl (NotADirectoryError p)
           | Some Dir \<Rightarrow> Inr (fs_put k Dir fs))"

function makedirs :: "string \<Rightarrow> filesystem \<Rightarrow> string \<Rightarrow> exn + filesystem" where
  "makedirs cwd fs nm =
     (let hd_tl = (if basename nm = [] then (dirname (dirname nm), basename (dirname nm))
                   else (dirname nm, basename nm))
      in if fst hd_tl \<noteq> [] \<and> snd hd_tl \<noteq> [] \<and> \<not> exists cwd fs (fst hd_tl)
         then (case makedirs cwd fs (fst hd_tl) of
                 Inr fs' \<Rightarrow> if snd hd_tl = ''.'' then Inr fs' else mkdir cwd fs' nm
               | Inl (FileExistsError _) \<Rightarrow> if snd hd_tl = ''.'' then Inr fs else mkdir cwd fs nm
               | Inl e \<Rightarrow> Inl e)
         else mkdir cwd fs nm)"
  by pat_completeness auto

termination
proof (relation "measure (\<lambda>(cwd, fs, nm). length nm)")
  show "wf (measure (\<lambda>(cwd, fs, nm). length nm))" by simp
next
  fix cwd :: string and fs :: filesystem and nm :: string and x :: "string \<times> string"
  assume x: "x = (if basename nm = [] then (dirname (dirname nm), basename (dirname nm))
                  else (dirname nm, basename nm))"
    and c: "fst x \<noteq> [] \<and> snd x \<noteq> [] \<and> \<not> exists cwd fs (fst x)"
  have le: "length (dirname p) \<le> length (dropWhile (\<lambda>c. c \<noteq> CHR ''/'') (rev p))" for p
    unfolding dirname_def Let_def by (auto intro: order_trans[OF length_dropWhile_le])
  have le': "length (dirname p) \<le> length p" for p
    using le [of p] length_dropWhile_le [of "\<lambda>c. c \<noteq> CHR ''/''" "rev p"] by simp
  have lt: "length (dirname p) < length p" if "basename p \<noteq> []" for p
  proof -
    have "length (takeWhile (\<lambda>c. c \<noteq> CHR ''/'') (rev p))
            + length (dropWhile (\<lambda>c. c \<noteq> CHR ''/'') (rev p)) = length p"
      by (metis length_append length_rev takeWhile_dropWhile_id)
    moreover have "takeWhile (\<lambda>c. c \<noteq> CHR ''/'') (rev p) \<noteq> []"
      using that by (simp add: basename_def)
    ultimately have "length (dropWhile (\<lambda>c. c \<noteq> CHR ''/'') (rev p)) < length p"
      by (cases "takeWhile (\<lambda>c. c \<noteq> CHR ''/'') (rev p)") auto
    with le [of p] show ?thesis by simp
  qed
  have "length (fst x) < length nm"
  proof (cases "basename nm = []")
    case True
    with x c have "basename (dirname nm) \<noteq> []" and "fst x = dirname (dirname nm)" by auto
    with lt [of "dirname nm"] le' [of nm] show ?thesis by simp
  next
    case False
    with x lt [of nm] show ?thesis by simp
  qed
  then show "((cwd, fs, fst x), cwd, fs, nm) \<in> measure (\<lambda>(cwd, fs, nm). length nm)" by simp
qed

declare makedirs.simps [simp del]


section \<open>Tar streams\<close>

text \<open>
  \<^verbatim>\<open>tarfile.open(fileobj=raw, mode="r|gz")\<close> reads the stream in one forward pass. The
  stream is a list of blocks: a member (a regular file with its bytes, or a directory),
  or a block that is not valid gzip or tar data, at which reading raises
  \<^verbatim>\<open>tarfile.ReadError\<close>. \<open>tar_extract\<close> is \<^verbatim>\<open>TarFile.extract(member, path)\<close>
  as called by the sources, with no extraction filter: the target is
  \<^verbatim>\<open>os.path.join(path, member.name)\<close>, missing parent directories are created, a
  regular file is opened for writing and a directory is created unless it exists. The
  result is paired with the filesystem as the call leaves it.
\<close>

datatype member_type = REGTYPE string | DIRTYPE

record tarinfo =
  name :: string
  type :: member_type

datatype block = Member tarinfo | BadBlock

definition tar_extract :: "string \<Rightarrow> filesystem \<Rightarrow> tarinfo \<Rightarrow> string \<Rightarrow> exn option \<times> filesystem" where
  "tar_extract cwd fs m path =
     (let targetpath = rev (dropWhile (\<lambda>c. c = CHR ''/'') (rev (join path (name m))));
          upperdirs = dirname targetpath;
          made = (if upperdirs \<noteq> [] \<and> \<not> exists cwd fs upperdirs
                  then makedirs cwd fs upperdirs else Inr fs)
      in case made of
           Inl e \<Rightarrow> (Some e, fs)
         | Inr fs1 \<Rightarrow>
            (case type m of
               REGTYPE bytes \<Rightarrow>
                 (case open_wb cwd fs1 targetpath bytes of
                    Inl e \<Rightarrow> (Some e, fs1)
                  | Inr fs2 \<Rightarrow> (None, fs2))
             | DIRTYPE \<Rightarrow>
                 (case mkdir cwd fs1 targetpath of
                    Inl (FileExistsError _) \<Rightarrow> (None, fs1)
                  | Inl e \<Rightarrow> (Some e, fs1)
                  | Inr fs2 \<Rightarrow> (None, fs2))))"

fun extractall :: "string \<Rightarrow> filesystem \<Rightarrow> block list \<Rightarrow> string \<Rightarrow> exn option \<times> filesystem" where
  "extractall cwd fs [] path = (None, fs)"
| "extractall cwd fs (BadBlock # rest) path = (Some ReadError, fs)"
| "extractall cwd fs (Member m # rest) path =
     (case tar_extract cwd fs m path of
        (Some e, fs') \<Rightarrow> (Some e, fs')
      | (None, fs') \<Rightarrow> extractall cwd fs' rest path)"

section \<open>The network, the environment and the state of the world\<close>

text \<open>
  \<open>request\<close> holds the arguments of one \<^verbatim>\<open>requests.get\<close> call; \<open>req_timeout\<close> is
  \<open>None\<close> when the call passes no \<^verbatim>\<open>timeout\<close> (requests then waits without
  bound). A \<open>response\<close> carries the status code, the outcome of
  \<^verbatim>\<open>int(r.headers.get("content-length", 0))\<close> and the body \<^verbatim>\<open>r.raw\<close> as a tar
  stream. The environment \<open>env\<close> is what the program reads and does not change: the
  working directory, the environment variables, how the servers answer and what the
  \<^verbatim>\<open>git clone\<close> subprocess does. The \<open>world\<close> is what the program changes: the
  files, the lines printed, and two logs kept for the statements below, every request
  issued and the number of calls of \<open>extract_data_cautiously\<close>.
\<close>

record request =
  req_url :: string
  req_stream :: bool
  req_timeout :: "nat option"

datatype content_length = Absent | Numeric int | Malformed

record response =
  status_code :: int
  headers_content_length :: content_length
  raw :: "block list"

record env =
  getcwd :: string
  environ :: "(string \<times> string) list"
  http_get :: "request \<Rightarrow> exn + response"
  git_clone :: "string \<Rightarrow> string \<Rightarrow> filesystem \<Rightarrow> exn + filesystem"

record world =
  files :: filesystem
  console :: "string list"
  http_log :: "request list"
  extract_calls :: nat

definition print :: "string \<Rightarrow> world \<Rightarrow> world" where
  "print line w = w\<lparr>console := console w @ [line]\<rparr>"


section \<open>geoips/commandline/geoips\_config.py\<close>



text \<open>
  The test of line 126,
  \<^verbatim>\<open>abspath(join(download_dir, m.name)).startswith(download_dir)\<close>, under a name of
  its own.
\<close>

definition is_contained :: "string \<Rightarrow> string \<Rightarrow> string \<Rightarrow> bool" where
  "is_contained cwd download_dir member_name =
     startswith (abspath cwd (join download_dir member_name)) download_dir"

text \<open>The loop \<^verbatim>\<open>for m in tar\<close> of \<^verbatim>\<open>extract_data_cautiously\<close>.\<close>

fun extract_members :: "string \<Rightarrow> string \<Rightarrow> filesystem \<Rightarrow> block list \<Rightarrow> (exn + pyval) \<times> filesystem" where
  "extract_members cwd download_dir fs [] = (Inr PyNone, fs)"
| "extract_members cwd download_dir fs (BadBlock # rest) = (Inl ReadError, fs)"
| "extract_members cwd download_dir fs (Member m # rest) =
     (if \<not> is_contained cwd download_dir (name m)
      then (Inl (SystemExit ''Found unsafe filepath in tar, exiting now.''), fs)
      else case tar_extract cwd fs m download_dir of
             (Some e, fs') \<Rightarrow> (Inl e, fs')
           | (None, fs') \<Rightarrow> extract_members cwd download_dir fs' rest)"

definition extract_data_cautiously :: "env \<Rightarrow> response \<Rightarrow> string \<Rightarrow> world \<Rightarrow> (exn + pyval) \<times> world" where
  "extract_data_cautiously e resp download_dir w =
     (case extract_members (getcwd e) download_dir (files w) (raw resp) of
        (r, fs') \<Rightarrow> (r, w\<lparr>files := fs', extract_calls := extract_calls w + 1\<rparr>))"

definition download_extract_test_data :: "env \<Rightarrow> string \<Rightarrow> string \<Rightarrow> world \<Rightarrow> (exn + pyval) \<times> world" where
  "download_extract_test_data e u download_dir w =
     (let req = \<lparr>req_url = u, req_stream = True, req_timeout = Some 15\<rparr>;
          w1 = w\<lparr>http_log := http_log w @ [req]\<rparr>
      in case http_get e req of
           Inl ex \<Rightarrow> (Inl ex, w1)
         | Inr resp \<Rightarrow>
            if status_code resp = 200 then extract_data_cautiously e resp download_dir w1
            else (Inl (ParserError (''Error retrieving data from '' @ u @ ''; Status Code ''
                                    @ str_int (status_code resp) @ ''.'')), w1))"


section \<open>setup/download\_test\_data.py\<close>

text \<open>
  \<^verbatim>\<open>output_to_console\<close> prints the message through the rich console or through
  \<^verbatim>\<open>print\<close>; the style changes the rendering only, so the line printed is the
  message in both cases.
\<close>

definition output_to_console :: "string \<Rightarrow> world \<Rightarrow> world" where
  "output_to_console message w = print message w"


text \<open>
  The body of the \<^verbatim>\<open>try\<close> of \<^verbatim>\<open>download_and_extract_compressed_tar\<close>, in the
  order of the source: the request (with no \<^verbatim>\<open>timeout\<close> argument),
  \<^verbatim>\<open>raise_for_status\<close> (which raises for a status from 400 to 599), the
  content length, \<^verbatim>\<open>open(dest, "wb")\<close>, \<^verbatim>\<open>tarfile.open\<close> (which reads the first
  block), the progress line (not an f-string in the source) and
  \<^verbatim>\<open>tar.extractall(path=dest)\<close>.
\<close>

definition download_and_extract_body :: "env \<Rightarrow> string \<Rightarrow> string \<Rightarrow> world \<Rightarrow> (exn + pyval) \<times> world" where
  "download_and_extract_body e u dest w =
     (let req = \<lparr>req_url = u, req_stream = True, req_timeout = None\<rparr>;
          w1 = w\<lparr>http_log := http_log w @ [req]\<rparr>
      in case http_get e req of
           Inl ex \<Rightarrow> (Inl ex, w1)
         | Inr r \<Rightarrow>
            if 400 \<le> status_code r \<and> status_code r < 600
            then (Inl (HTTPError (status_code r)), w1)
            else if headers_content_length r = Malformed then (Inl ValueError, w1)
            else (case open_wb (getcwd e) (files w1) dest [] of
                    Inl ex \<Rightarrow> (Inl ex, w1)
                  | Inr fs1 \<Rightarrow>
                     (case raw r of
                        BadBlock # _ \<Rightarrow> (Inl ReadError, w1\<lparr>files := fs1\<rparr>)
                      | blocks \<Rightarrow>
                         (let w2 = output_to_console
                                     ''Downloading and extracting {file_length} bytes... ''
                                     (w1\<lparr>files := fs1\<rparr>)
                          in case extractall (getcwd e) (files w2) blocks dest of
                               (Some ex, fs2) \<Rightarrow> (Inl ex, w2\<lparr>files := fs2\<rparr>)
                             | (None, fs2) \<Rightarrow> (Inr PyNone, w2\<lparr>files := fs2\<rparr>)))))"

definition download_and_extract_compressed_tar :: "env \<Rightarrow> string \<Rightarrow> string \<Rightarrow> world \<Rightarrow> (exn + pyval) \<times> world" where
  "download_and_extract_compressed_tar e u dest w =
     (case download_and_extract_body e u dest
             (output_to_console (''Downloading and extracting '' @ u @ '' to '' @ dest @ ''...'') w) of
        (Inr _, w') \<Rightarrow>
          (Inr PyNone, output_to_console ''Files successfully downloaded and extracted.'' w')
      | (Inl ex, w') \<Rightarrow>
          if is_Exception ex
          then (Inl ex, output_to_console ''Failed to download or extract files.'' w')
          else (Inl ex, w'))"


section \<open>geoips/commandline/geoips\_validate.py\<close>

text \<open>
  A plugin file is loaded as a Python module (its attributes, by name) or parsed as
  yaml (a mapping, or some other yaml value). Loading, parsing and the interfaces of
  \<^verbatim>\<open>geoips.interfaces\<close> are outside these sources and are parameters. The handler
  \<^verbatim>\<open>except AttributeError or KeyError\<close> evaluates \<^verbatim>\<open>AttributeError or KeyError\<close>
  to \<^verbatim>\<open>AttributeError\<close>, so it handles that exception only.
\<close>

datatype yaml = YMapping "(string \<times> string) list" | YOther

datatype plugin = ModuleBased "(string \<times> string) list" | YamlBased yaml

record plugin_env =
  load_module_from_file :: "string \<Rightarrow> exn + (string \<times> string) list"
  yaml_safe_load :: "string \<Rightarrow> exn + yaml"
  interfaces :: "string \<Rightarrow> (string \<Rightarrow> bool) option"

definition err_str :: "string \<Rightarrow> string" where
  "err_str fpath = ''Plugin found at '' @ fpath
     @ '' doesn't have `interface` and/or `plugin` attribute[s]. This plugin is invalid.''"

definition load_plugin :: "plugin_env \<Rightarrow> string \<Rightarrow> exn + plugin" where
  "load_plugin pe fpath =
     (if drop (length fpath - 3) fpath = ''.py''
      then (case load_module_from_file pe fpath of
              Inl ex \<Rightarrow> Inl ex | Inr attrs \<Rightarrow> Inr (ModuleBased attrs))
      else (case yaml_safe_load pe fpath of
              Inl ex \<Rightarrow> Inl ex | Inr y \<Rightarrow> Inr (YamlBased y)))"

text \<open>The body of the \<^verbatim>\<open>try\<close> of \<^verbatim>\<open>validate\<close>.\<close>

fun lookup_names :: "plugin \<Rightarrow> exn + string \<times> string" where
  "lookup_names (ModuleBased attrs) =
     (case map_of attrs ''interface'' of
        None \<Rightarrow> Inl (AttributeError ''interface'')
      | Some interface_name \<Rightarrow>
         (case map_of attrs ''name'' of
            None \<Rightarrow> Inl (AttributeError ''name'')
          | Some plugin_name \<Rightarrow> Inr (interface_name, plugin_name)))"
| "lookup_names (YamlBased (YMapping m)) =
     (case map_of m ''interface'' of
        None \<Rightarrow> Inl (KeyError ''interface'')
      | Some interface_name \<Rightarrow>
         (case map_of m ''name'' of
            None \<Rightarrow> Inl (KeyError ''name'')
          | Some plugin_name \<Rightarrow> Inr (interface_name, plugin_name)))"
| "lookup_names (YamlBased YOther) = Inl TypeError"

definition validate :: "plugin_env \<Rightarrow> string \<Rightarrow> world \<Rightarrow> (exn + pyval) \<times> world" where
  "validate pe fpath w =
     (case load_plugin pe fpath of
        Inl ex \<Rightarrow> (Inl ex, w)
      | Inr plugin \<Rightarrow>
         (case lookup_names plugin of
            Inl (AttributeError _) \<Rightarrow> (Inl (ParserError (err_str fpath)), w)
          | Inl ex \<Rightarrow> (Inl ex, w)
          | Inr (interface_name, plugin_name) \<Rightarrow>
             (case interfaces pe interface_name of
                None \<Rightarrow> (Inl (AttributeError interface_name), w)
              | Some plugin_is_valid \<Rightarrow>
                 if \<not> plugin_is_valid plugin_name
                 then (Inl (ParserError (''Plugin `'' @ plugin_name @ ''` found at '' @ fpath
                                         @ '' is invalid.'')), w)
                 else (Inr PyNone,
                       print (''Plugin `'' @ plugin_name @ ''` found at '' @ fpath
                              @ '' is valid.'') w))))"

section \<open>Notions used in the statements\<close>

text \<open>
  A component is clean when it is not empty, \<^verbatim>\<open>.\<close> or \<^verbatim>\<open>..\<close>; a member name is
  clean when all its components are, which makes it relative, not empty and free of
  traversal. A root is normalised when it is absolute and \<open>normpath\<close> leaves it as it
  is. A path lies in the subtree of a root when it is the root or continues the root
  after a separator: the segment-aware reading of ``inside the root''.
\<close>

definition clean :: "string \<Rightarrow> bool" where
  "clean c = (c \<noteq> [] \<and> c \<noteq> ''.'' \<and> c \<noteq> ''..'')"

definition clean_name :: "string \<Rightarrow> bool" where
  "clean_name nm = list_all clean (split_sep nm)"

definition normalized_root :: "string \<Rightarrow> bool" where
  "normalized_root r = (isabs r \<and> normpath r = r)"

definition in_subtree :: "string \<Rightarrow> string \<Rightarrow> bool" where
  "in_subtree root p =
     (p = root \<or> startswith p (if endswith root ''/'' then root else root @ ''/''))"



section \<open>Example inputs\<close>

text \<open>
  A world with the root directory and an empty directory \<^verbatim>\<open>/data\<close>; the archive with
  the members \<^verbatim>\<open>a.txt\<close> and \<^verbatim>\<open>sub/b.txt\<close>; an environment whose server
  answers every request with a given status and body; a plugin environment whose
  plugin files lack the \<^verbatim>\<open>name\<close> entry; an archive that holds the directory
  \<^verbatim>\<open>test_data_viirs\<close> and a file in it; and a world in which that directory is
  already there.
\<close>

definition example_world :: world where
  "example_world = \<lparr>files = [(''/'', Dir), (''/data'', Dir)], console = [], http_log = [], extract_calls = 0\<rparr>"

definition example_archive :: "block list" where
  "example_archive = [Member \<lparr>name = ''a.txt'', type = REGTYPE ''A''\<rparr>,
                      Member \<lparr>name = ''sub/b.txt'', type = REGTYPE ''B''\<rparr>]"

definition example_env :: "int \<Rightarrow> block list \<Rightarrow> env" where
  "example_env status blocks =
     \<lparr>getcwd = ''/'', environ = [(''GEOIPS_TESTDATA_DIR'', ''/data'')],
      http_get = (\<lambda>req. Inr \<lparr>status_code = status, headers_content_length = Absent, raw = blocks\<rparr>),
      git_clone = (\<lambda>u d fs. Inr fs)\<rparr>"

definition example_plugin_env :: plugin_env where
  "example_plugin_env =
     \<lparr>load_module_from_file = (\<lambda>p. Inr [(''interface'', ''algorithms'')]),
      yaml_safe_load = (\<lambda>p. Inr (YMapping [(''interface'', ''products'')])),
      interfaces = (\<lambda>n. if n = ''products'' \<or> n = ''algorithms'' then Some (\<lambda>p. True) else None)\<rparr>"



section \<open>Facts about strings and paths\<close>

lemma startswith_iff: "startswith s p \<longleftrightarrow> (\<exists>t. s = p @ t)"
  by (induction s p rule: startswith.induct) auto

lemma split_sep_ne: "split_sep s \<noteq> []"
  by (induction s) auto

text \<open>
  For evaluation, the second equation of \<open>split_sep\<close> with its recursive call
  named once.
\<close>

lemma split_sep_code [code]:
  "split_sep [] = [[]]"
  "split_sep (c # cs) =
     (if c = CHR ''/'' then [] # split_sep cs
      else (case split_sep cs of [] \<Rightarrow> [[c]] | w # ws \<Rightarrow> (c # w) # ws))"
proof -
  show "split_sep [] = [[]]" by simp
  obtain w ws where "split_sep cs = w # ws"
    using split_sep_ne [of cs] by (cases "split_sep cs") auto
  then show "split_sep (c # cs) =
     (if c = CHR ''/'' then [] # split_sep cs
      else (case split_sep cs of [] \<Rightarrow> [[c]] | w # ws \<Rightarrow> (c # w) # ws))"
    by simp
qed

lemma split_sep_append: "split_sep (a @ CHR ''/'' # b) = split_sep a @ split_sep b"
  by (induction a) (auto simp: split_sep_ne)

lemma split_sep_nosep: "CHR ''/'' \<notin> set c \<Longrightarrow> split_sep c = [c]"
  by (induction c) auto

lemma join_sep_Cons: "ws \<noteq> [] \<Longrightarrow> join_sep (w # ws) = w @ CHR ''/'' # join_sep ws"
  by (cases ws) auto

lemma split_sep_no_slash: "c \<in> set (split_sep s) \<Longrightarrow> CHR ''/'' \<notin> set c"
proof (induction s arbitrary: c)
  case Nil then show ?case by simp
next
  case (Cons x s)
  obtain w ws where ws: "split_sep s = w # ws" using split_sep_ne by (cases "split_sep s") auto
  show ?case
  proof (cases "x = CHR ''/''")
    case True
    with Cons.prems have "c = [] \<or> c \<in> set (split_sep s)" by simp
    then show ?thesis using Cons.IH by auto
  next
    case False
    with Cons.prems ws have "c = x # w \<or> c \<in> set ws" by simp
    moreover have "CHR ''/'' \<notin> set w" using Cons.IH [of w] ws by simp
    moreover have "c \<in> set ws \<Longrightarrow> CHR ''/'' \<notin> set c" using Cons.IH [of c] ws by simp
    ultimately show ?thesis using False by auto
  qed
qed

lemma join_sep_split_sep: "join_sep (split_sep s) = s"
proof (induction s)
  case Nil show ?case by simp
next
  case (Cons c s)
  obtain w ws where ws: "split_sep s = w # ws" using split_sep_ne by (cases "split_sep s") auto
  show ?case using Cons ws by (cases ws) auto
qed

lemma join_sep_append: "xs \<noteq> [] \<Longrightarrow> ys \<noteq> [] \<Longrightarrow> join_sep (xs @ ys) = join_sep xs @ CHR ''/'' # join_sep ys"
proof (induction xs)
  case Nil then show ?case by simp
next
  case (Cons x xs)
  show ?case
  proof (cases "xs = []")
    case True with Cons.prems show ?thesis by (simp add: join_sep_Cons)
  next
    case False
    with Cons show ?thesis by (simp add: join_sep_Cons)
  qed
qed

lemma split_sep_join_sep: "cs \<noteq> [] \<Longrightarrow> \<forall>c\<in>set cs. CHR ''/'' \<notin> set c \<Longrightarrow> split_sep (join_sep cs) = cs"
proof (induction cs)
  case Nil then show ?case by simp
next
  case (Cons c cs)
  show ?case
  proof (cases "cs = []")
    case True with Cons.prems show ?thesis by (simp add: split_sep_nosep)
  next
    case False
    with Cons show ?thesis by (simp add: join_sep_Cons split_sep_append split_sep_nosep)
  qed
qed


lemma norm_comps_clean: "list_all clean cs \<Longrightarrow> norm_comps i acc cs = acc @ cs"
  by (induction cs arbitrary: acc) (auto simp: clean_def)

lemma norm_comps_append: "norm_comps i acc (xs @ ys) = norm_comps i (norm_comps i acc xs) ys"
  by (induction xs arbitrary: acc) auto

lemma norm_comps_replicate_Nil: "norm_comps i acc (replicate n [] @ cs) = norm_comps i acc cs"
  by (induction n) auto

lemma norm_comps_result_clean:
  "0 < i \<Longrightarrow> \<forall>a\<in>set acc. clean a \<Longrightarrow> \<forall>a\<in>set (norm_comps i acc cs). clean a"
proof (induction cs arbitrary: acc)
  case Nil then show ?case by simp
next
  case (Cons c cs)
  have b: "\<forall>a\<in>set (butlast acc). clean a" using Cons.prems(2)
    by (meson in_set_butlastD)
  have l: "acc \<noteq> [] \<Longrightarrow> last acc \<noteq> ''..''" using Cons.prems(2) last_in_set [of acc]
    by (auto simp: clean_def)
  have e: "c \<noteq> [] \<Longrightarrow> c \<noteq> ''.'' \<Longrightarrow> c \<noteq> ''..'' \<Longrightarrow> \<forall>a\<in>set (acc @ [c]). clean a"
    using Cons.prems(2) by (simp add: clean_def)
  show ?case
    using Cons.IH [OF Cons.prems(1) Cons.prems(2)] Cons.IH [OF Cons.prems(1) b]
      Cons.IH [OF Cons.prems(1) e] l Cons.prems(1)
    by (simp del: set_append)
qed

lemma norm_comps_subset: "set (norm_comps i acc cs) \<subseteq> set acc \<union> set cs"
proof (induction cs arbitrary: acc)
  case Nil then show ?case by simp
next
  case (Cons c cs)
  have "set (butlast acc) \<subseteq> set acc" by (meson in_set_butlastD subsetI)
  with Cons.IH [of acc] Cons.IH [of "acc @ [c]"] Cons.IH [of "butlast acc"] show ?case
    by (auto simp del: norm_comps.simps simp add: norm_comps.simps(2) [of i acc c cs])
qed


lemma replicate_2: "replicate 2 x = [x, x]"
  by (simp add: numeral_2_eq_2)

lemma initial_slashes_cases: "initial_slashes p = 0 \<or> initial_slashes p = 1 \<or> initial_slashes p = 2"
  by (simp add: initial_slashes_def)

lemma isabs_initial_slashes: "isabs p \<Longrightarrow> 0 < initial_slashes p"
  by (simp add: isabs_def initial_slashes_def)

text \<open>The shape of a normalised absolute path: one or two slashes, then clean components.\<close>

lemma normalized_root_shape:
  assumes "normalized_root r"
  obtains i cs where "r = replicate i CHR ''/'' @ join_sep cs" and "i = 1 \<or> i = 2"
    and "\<forall>c\<in>set cs. clean c \<and> CHR ''/'' \<notin> set c"
proof -
  let ?i = "initial_slashes r"
  let ?cs = "norm_comps ?i [] (split_sep r)"
  from assms have abs: "isabs r" and n: "normpath r = r" by (auto simp: normalized_root_def)
  from abs have ne: "r \<noteq> []" by (auto simp: isabs_def)
  from abs have pos: "0 < ?i" by (rule isabs_initial_slashes)
  then have "replicate ?i CHR ''/'' @ join_sep ?cs \<noteq> []" by simp
  from n ne pos have r: "r = replicate ?i CHR ''/'' @ join_sep ?cs"
    by (auto simp: normpath_def Let_def split: if_splits)
  have i: "?i = 1 \<or> ?i = 2" using pos initial_slashes_cases [of r] by auto
  have c1: "\<forall>c\<in>set ?cs. clean c" using norm_comps_result_clean [OF pos, of "[]"] by simp
  have "set ?cs \<subseteq> set (split_sep r)" using norm_comps_subset [of ?i "[]" "split_sep r"] by simp
  then have c2: "\<forall>c\<in>set ?cs. CHR ''/'' \<notin> set c" using split_sep_no_slash by blast
  from r i c1 c2 show ?thesis using that by blast
qed

lemma join_sep_hd:
  "cs \<noteq> [] \<Longrightarrow> \<forall>c\<in>set cs. c \<noteq> [] \<and> CHR ''/'' \<notin> set c \<Longrightarrow>
     join_sep cs \<noteq> [] \<and> hd (join_sep cs) \<noteq> CHR ''/''"
  by (cases cs rule: join_sep.cases) (auto simp: neq_Nil_conv)

lemma join_sep_last:
  "cs \<noteq> [] \<Longrightarrow> \<forall>c\<in>set cs. c \<noteq> [] \<and> CHR ''/'' \<notin> set c \<Longrightarrow>
     join_sep cs \<noteq> [] \<and> last (join_sep cs) \<noteq> CHR ''/''"
proof (induction cs)
  case Nil then show ?case by simp
next
  case (Cons c cs)
  show ?case
  proof (cases "cs = []")
    case True
    from Cons.prems have c: "c \<noteq> []" and n: "CHR ''/'' \<notin> set c" by auto
    from c have "last c \<in> set c" by simp
    with n have "last c \<noteq> CHR ''/''" by metis
    with c True show ?thesis by simp
  next
    case False
    with Cons show ?thesis by (simp add: join_sep_Cons)
  qed
qed

text \<open>A path of that shape is a fixed point of \<open>normpath\<close>.\<close>

lemma normpath_shape:
  assumes i: "i = 1 \<or> i = 2" and cs: "\<forall>c\<in>set cs. clean c \<and> CHR ''/'' \<notin> set c"
  shows "normpath (replicate i CHR ''/'' @ join_sep cs) = replicate i CHR ''/'' @ join_sep cs"
proof -
  let ?p = "replicate i CHR ''/'' @ join_sep cs"
  have lc: "list_all clean cs" using cs by (simp add: list_all_iff)
  have h: "cs \<noteq> [] \<Longrightarrow> join_sep cs \<noteq> [] \<and> hd (join_sep cs) \<noteq> CHR ''/''"
    using join_sep_hd [of cs] cs by (auto simp: clean_def)
  have isl: "initial_slashes ?p = i"
  proof (cases "cs = []")
    case True with i show ?thesis by (auto simp: initial_slashes_def replicate_2)
  next
    case False
    with h obtain x xs where "join_sep cs = x # xs" and "x \<noteq> CHR ''/''"
      by (cases "join_sep cs") auto
    with i show ?thesis by (auto simp: initial_slashes_def replicate_2)
  qed
  have sp: "norm_comps i [] (split_sep ?p) = cs"
  proof (cases "cs = []")
    case True with i show ?thesis by (auto simp: replicate_2)
  next
    case False
    have "split_sep ?p = replicate i [] @ split_sep (join_sep cs)" using i by (auto simp: replicate_2)
    also have "split_sep (join_sep cs) = cs" using split_sep_join_sep [OF False] cs by simp
    finally show ?thesis using norm_comps_clean [OF lc, of i "[]"]
      by (simp add: norm_comps_replicate_Nil)
  qed
  have "?p \<noteq> []" using i by auto
  then show ?thesis using isl sp by (simp add: normpath_def Let_def)
qed

lemma startswith_slash: "startswith p ''/'' \<longleftrightarrow> p \<noteq> [] \<and> hd p = CHR ''/''"
  by (cases p) auto

lemma endswith_slash: "endswith p ''/'' \<longleftrightarrow> p \<noteq> [] \<and> last p = CHR ''/''"
proof (cases p rule: rev_cases)
  case Nil then show ?thesis by (simp add: endswith_def)
next
  case (snoc ys y) then show ?thesis by (simp add: endswith_def)
qed

lemma clean_name_split:
  assumes "clean_name m"
  shows "\<forall>c\<in>set (split_sep m). clean c \<and> CHR ''/'' \<notin> set c"
    and "split_sep m \<noteq> []" and "\<not> startswith m ''/''" and "m \<noteq> []"
proof -
  have c: "\<forall>c\<in>set (split_sep m). clean c"
    using assms by (simp add: clean_name_def list_all_iff)
  then show a: "\<forall>c\<in>set (split_sep m). clean c \<and> CHR ''/'' \<notin> set c"
    using split_sep_no_slash [of _ m] by blast
  show "split_sep m \<noteq> []" by (rule split_sep_ne)
  show "\<not> startswith m ''/''"
  proof
    assume "startswith m ''/''"
    then obtain t where "m = CHR ''/'' # t" by (cases m) auto
    then have "[] \<in> set (split_sep m)" by simp
    with c have "clean []" by blast
    then show False by (simp add: clean_def)
  qed
  show "m \<noteq> []"
  proof
    assume "m = []"
    then have "[] \<in> set (split_sep m)" by simp
    with c have "clean []" by blast
    then show False by (simp add: clean_def)
  qed
qed
text \<open>Joining a clean relative name onto a normalised root, and normalising the result.\<close>

lemma join_clean:
  assumes r: "r = replicate i CHR ''/'' @ join_sep cs" and i: "i = 1 \<or> i = 2"
    and cs: "\<forall>c\<in>set cs. clean c \<and> CHR ''/'' \<notin> set c" and m: "clean_name m"
  shows "join r m = replicate i CHR ''/'' @ join_sep (cs @ split_sep m)"
    and "join r m = (if cs = [] then r @ m else r @ ''/'' @ m)"
proof -
  note ms = clean_name_split [OF m]
  have e: "endswith r ''/'' \<longleftrightarrow> cs = []"
  proof (cases "cs = []")
    case True with r i show ?thesis by (auto simp: endswith_slash replicate_2)
  next
    case False
    with join_sep_last [of cs] cs have "join_sep cs \<noteq> [] \<and> last (join_sep cs) \<noteq> CHR ''/''"
      by (auto simp: clean_def)
    with r False show ?thesis by (simp add: endswith_slash)
  qed
  have rne: "r \<noteq> []" using r i by auto
  show j: "join r m = (if cs = [] then r @ m else r @ ''/'' @ m)"
    unfolding join_def using ms(3) e rne by simp
  show "join r m = replicate i CHR ''/'' @ join_sep (cs @ split_sep m)"
  proof (cases "cs = []")
    case True with j r show ?thesis by (simp add: join_sep_split_sep)
  next
    case False
    with j r join_sep_append [OF False ms(2)] show ?thesis by (simp add: join_sep_split_sep)
  qed
qed

lemma abspath_join_clean:
  assumes "normalized_root r" and "clean_name m"
  shows "abspath cwd (join r m) = join r m"
proof -
  from assms(1) obtain i cs where r: "r = replicate i CHR ''/'' @ join_sep cs" and i: "i = 1 \<or> i = 2"
    and cs: "\<forall>c\<in>set cs. clean c \<and> CHR ''/'' \<notin> set c" by (rule normalized_root_shape)
  note ms = clean_name_split [OF assms(2)]
  have j: "join r m = replicate i CHR ''/'' @ join_sep (cs @ split_sep m)"
    by (rule join_clean(1) [OF r i cs assms(2)])
  have "isabs (join r m)" using j i by (auto simp: isabs_def replicate_2)
  moreover have "normpath (join r m) = join r m"
    unfolding j using normpath_shape [OF i, of "cs @ split_sep m"] cs ms(1) by auto
  ultimately show ?thesis by (simp add: abspath_def)
qed

lemma is_contained_clean:
  assumes "normalized_root r" and "clean_name m"
  shows "is_contained cwd r m"
proof -
  from assms(1) obtain i cs where r: "r = replicate i CHR ''/'' @ join_sep cs" and i: "i = 1 \<or> i = 2"
    and cs: "\<forall>c\<in>set cs. clean c \<and> CHR ''/'' \<notin> set c" by (rule normalized_root_shape)
  have "\<exists>t. join r m = r @ t" using join_clean(2) [OF r i cs assms(2)] by auto
  then show ?thesis
    by (simp add: is_contained_def abspath_join_clean [OF assms] startswith_iff)
qed

lemma in_subtree_startswith: "in_subtree r p \<Longrightarrow> startswith p r"
  by (auto simp: in_subtree_def startswith_iff split: if_splits)

lemma in_subtree_join_clean:
  assumes "normalized_root r" and "clean_name m"
  shows "in_subtree r (join r m)"
proof -
  from assms(1) obtain i cs where r: "r = replicate i CHR ''/'' @ join_sep cs" and i: "i = 1 \<or> i = 2"
    and cs: "\<forall>c\<in>set cs. clean c \<and> CHR ''/'' \<notin> set c" by (rule normalized_root_shape)
  have j: "join r m = (if cs = [] then r @ m else r @ ''/'' @ m)"
    by (rule join_clean(2) [OF r i cs assms(2)])
  show ?thesis
  proof (cases "cs = []")
    case True
    with r i have "endswith r ''/''" by (auto simp: endswith_slash replicate_2)
    with j True show ?thesis by (simp add: in_subtree_def startswith_iff)
  next
    case False
    with j show ?thesis by (auto simp: in_subtree_def startswith_iff)
  qed
qed

section \<open>Properties of the containment test\<close>

text \<open>
  C2, as stated, fails: the test accepts the empty member name, whose normalised join
  is the root itself, and an absolute member name that lies inside the root.
\<close>

theorem is_contained_counterexample:
  "is_contained ''/'' ''/data'' [] \<and> abspath ''/'' (join ''/data'' []) = ''/data''
   \<and> is_contained ''/'' ''/data'' ''/data/x''"
  by code_simp

text \<open>
  C2, amended. The test is a total function. It accepts a member name whenever the
  normalised join of root and name is the root itself or lies below the root segment
  by segment; it accepts every clean relative name when the root is normalised; and it
  rejects a name whenever the root is not a string prefix of the normalised join. So
  \<^verbatim>\<open>file.txt\<close> is accepted against \<^verbatim>\<open>/data\<close>, and \<^verbatim>\<open>../etc/passwd\<close>,
  \<^verbatim>\<open>/etc/passwd\<close> and \<^verbatim>\<open>sub/../../etc\<close> are rejected. Nothing is said about a
  normalised join that has the root as a string prefix without lying in its subtree.
\<close>

theorem is_contained_by_design:
  "(in_subtree r (abspath cwd (join r m)) \<longrightarrow> is_contained cwd r m)
   \<and> (\<not> startswith (abspath cwd (join r m)) r \<longrightarrow> \<not> is_contained cwd r m)
   \<and> (normalized_root r \<and> clean_name m \<longrightarrow>
        is_contained cwd r m \<and> in_subtree r (abspath cwd (join r m)))
   \<and> is_contained cwd ''/data'' ''file.txt''
   \<and> \<not> is_contained cwd ''/data'' ''../etc/passwd''
   \<and> \<not> is_contained cwd ''/data'' ''/etc/passwd''
   \<and> \<not> is_contained cwd ''/data'' ''sub/../../etc''"
proof -
  have a: "in_subtree r (abspath cwd (join r m)) \<longrightarrow> is_contained cwd r m"
    by (simp add: is_contained_def in_subtree_startswith)
  have b: "\<not> startswith (abspath cwd (join r m)) r \<longrightarrow> \<not> is_contained cwd r m"
    by (simp add: is_contained_def)
  have c: "normalized_root r \<and> clean_name m \<longrightarrow>
        is_contained cwd r m \<and> in_subtree r (abspath cwd (join r m))"
    by (simp add: is_contained_clean abspath_join_clean in_subtree_join_clean)
  have d: "is_contained cwd ''/data'' ''file.txt''
   \<and> \<not> is_contained cwd ''/data'' ''../etc/passwd''
   \<and> \<not> is_contained cwd ''/data'' ''/etc/passwd''
   \<and> \<not> is_contained cwd ''/data'' ''sub/../../etc''"
    by (simp add: is_contained_def abspath_def join_def isabs_def normpath_def
          initial_slashes_def endswith_def)
  from a b c d show ?thesis by blast
qed

theorem is_contained_by_design_witness:
  "normalized_root ''/data'' \<and> clean_name ''sub/b.txt''
   \<and> in_subtree ''/data'' (abspath ''/home'' (join ''/data'' ''sub/b.txt''))
   \<and> is_contained ''/home'' ''/data'' ''sub/b.txt''
   \<and> \<not> startswith (abspath ''/home'' (join ''/data'' ''../escape'')) ''/data''
   \<and> \<not> is_contained ''/home'' ''/data'' ''../escape''"
proof -
  have h: "normalized_root ''/data'' \<and> clean_name ''sub/b.txt''" by code_simp
  have g: "\<not> startswith (abspath ''/home'' (join ''/data'' ''../escape'')) ''/data''" by code_simp
  from h g is_contained_by_design [of "''/data''" "''/home''" "''sub/b.txt''"]
    is_contained_by_design [of "''/data''" "''/home''" "''../escape''"]
  show ?thesis by blast
qed

section \<open>Properties of the paths written by extraction\<close>

text \<open>
  C1. Every path written during extraction is claimed to lie inside the destination
  root, on both paths. On the catalog path, with root \<^verbatim>\<open>/data\<close> and the single
  member \<^verbatim>\<open>../data2/x\<close>, the test of \<open>extract_members\<close> passes, because
  \<^verbatim>\<open>/data2/x\<close> starts with the string \<^verbatim>\<open>/data\<close>, and the file is written at
  \<^verbatim>\<open>/data2/x\<close>, outside the root. On the raw-URL path no member is tested at all:
  with destination \<^verbatim>\<open>/out\<close> and the single member \<^verbatim>\<open>/etc/evil\<close> the file is
  written at \<^verbatim>\<open>/etc/evil\<close>.
\<close>

theorem extraction_writes_outside_root:
  "download_extract_test_data (example_env 200 [Member \<lparr>name = ''../data2/x'', type = REGTYPE ''X''\<rparr>])
      ''http://h/x.tgz'' ''/data'' example_world
     = (Inr PyNone,
        \<lparr>files = [(''/'', Dir), (''/data'', Dir), (''/data2'', Dir), (''/data2/x'', RegFile ''X'')],
         console = [],
         http_log = [\<lparr>req_url = ''http://h/x.tgz'', req_stream = True, req_timeout = Some 15\<rparr>],
         extract_calls = 1\<rparr>)
   \<and> \<not> in_subtree ''/data'' ''/data2/x''
   \<and> download_and_extract_compressed_tar
        (example_env 200 [Member \<lparr>name = ''/etc/evil'', type = REGTYPE ''X''\<rparr>])
        ''http://h/x.tgz'' ''/out'' example_world
     = (Inr PyNone,
        \<lparr>files = [(''/'', Dir), (''/data'', Dir), (''/out'', RegFile []), (''/etc'', Dir),
                  (''/etc/evil'', RegFile ''X'')],
         console = [''Downloading and extracting http://h/x.tgz to /out...'',
                    ''Downloading and extracting {file_length} bytes... '',
                    ''Files successfully downloaded and extracted.''],
         http_log = [\<lparr>req_url = ''http://h/x.tgz'', req_stream = True, req_timeout = None\<rparr>],
         extract_calls = 0\<rparr>)
   \<and> \<not> in_subtree ''/out'' ''/etc/evil''"
  by code_simp

section \<open>Properties of the abort on an unsafe member\<close>

text \<open>
  When the test rejects a member, the loop stops there with \<^verbatim>\<open>SystemExit\<close>: the
  members before it stay extracted and the members after it are not read.
\<close>

lemma extract_members_stops_at_rejected:
  assumes "extract_members cwd d fs (map Member ms) = (Inr v, fs')"
    and "\<not> is_contained cwd d (name m)"
  shows "extract_members cwd d fs (map Member ms @ Member m # rest)
           = (Inl (SystemExit ''Found unsafe filepath in tar, exiting now.''), fs')"
  using assms
proof (induction ms arbitrary: fs)
  case Nil then show ?case by simp
next
  case (Cons a ms)
  then show ?case by (auto split: prod.splits option.splits if_splits)
qed

text \<open>
  C3. A safe member followed by a member whose path escapes the root is claimed to
  abort the extraction at the second member, with nothing written outside the root.
  With root \<^verbatim>\<open>/data\<close> and the members \<^verbatim>\<open>a.txt\<close> and \<^verbatim>\<open>../data2/x\<close>, the
  second member resolves to \<^verbatim>\<open>/data2/x\<close>, outside the root; the extraction does
  not abort, returns normally and has written \<^verbatim>\<open>/data2/x\<close>.
\<close>

theorem escaping_member_is_extracted:
  "extract_data_cautiously (example_env 200 [])
      \<lparr>status_code = 200, headers_content_length = Absent,
       raw = [Member \<lparr>name = ''a.txt'', type = REGTYPE ''A''\<rparr>,
              Member \<lparr>name = ''../data2/x'', type = REGTYPE ''X''\<rparr>]\<rparr>
      ''/data'' example_world
     = (Inr PyNone,
        \<lparr>files = [(''/'', Dir), (''/data'', Dir), (''/data/a.txt'', RegFile ''A''),
                  (''/data2'', Dir), (''/data2/x'', RegFile ''X'')],
         console = [], http_log = [], extract_calls = 1\<rparr>)
   \<and> abspath ''/'' (join ''/data'' ''../data2/x'') = ''/data2/x''
   \<and> \<not> in_subtree ''/data'' ''/data2/x''"
  by code_simp

section \<open>Properties of the idempotency guard\<close>












section \<open>Properties of the HTTP status handling\<close>

text \<open>
  C5. In \<open>download_extract_test_data\<close>, a response whose status is not 200 is reported
  through the parser error whose message carries the URL and the status code, and
  \<open>extract_data_cautiously\<close> is not called (the call counter and the files are
  unchanged); with status 200 the result is that of \<open>extract_data_cautiously\<close> on the
  response; and whenever the call counter has changed, the server had answered with
  status 200.
\<close>

theorem download_extract_test_data_non_200:
  "(http_get e \<lparr>req_url = u, req_stream = True, req_timeout = Some 15\<rparr> = Inr resp
      \<and> status_code resp \<noteq> 200 \<longrightarrow>
      fst (download_extract_test_data e u d w)
        = Inl (ParserError (''Error retrieving data from '' @ u @ ''; Status Code ''
                            @ str_int (status_code resp) @ ''.''))
      \<and> extract_calls (snd (download_extract_test_data e u d w)) = extract_calls w
      \<and> files (snd (download_extract_test_data e u d w)) = files w)
   \<and> (http_get e \<lparr>req_url = u, req_stream = True, req_timeout = Some 15\<rparr> = Inr resp
      \<and> status_code resp = 200 \<longrightarrow>
      download_extract_test_data e u d w
        = extract_data_cautiously e resp d
            (w\<lparr>http_log := http_log w @ [\<lparr>req_url = u, req_stream = True, req_timeout = Some 15\<rparr>]\<rparr>))
   \<and> (extract_calls (snd (download_extract_test_data e u d w)) \<noteq> extract_calls w \<longrightarrow>
      (\<exists>r. http_get e \<lparr>req_url = u, req_stream = True, req_timeout = Some 15\<rparr> = Inr r
            \<and> status_code r = 200))"
  by (auto simp: download_extract_test_data_def Let_def split: sum.splits)

theorem download_extract_test_data_non_200_witness:
  "fst (download_extract_test_data (example_env 404 example_archive) ''http://h/x.tgz'' ''/data'' example_world)
     = Inl (ParserError ''Error retrieving data from http://h/x.tgz; Status Code 404.'')
   \<and> extract_calls (snd (download_extract_test_data (example_env 404 example_archive) ''http://h/x.tgz'' ''/data'' example_world)) = 0
   \<and> files (snd (download_extract_test_data (example_env 404 example_archive) ''http://h/x.tgz'' ''/data'' example_world))
       = [(''/'', Dir), (''/data'', Dir)]"
proof -
  have h: "http_get (example_env 404 example_archive)
             \<lparr>req_url = ''http://h/x.tgz'', req_stream = True, req_timeout = Some 15\<rparr>
           = Inr \<lparr>status_code = 404, headers_content_length = Absent, raw = example_archive\<rparr>
           \<and> status_code \<lparr>status_code = 404, headers_content_length = Absent, raw = example_archive\<rparr> \<noteq> 200"
    by (simp add: example_env_def)
  have s: "str_int 404 = ''404''"
    by (simp add: str_int_def str_nat.simps)
  from h download_extract_test_data_non_200
         [of "example_env 404 example_archive" "''http://h/x.tgz''"
             "\<lparr>status_code = 404, headers_content_length = Absent, raw = example_archive\<rparr>"
             "''/data''" example_world]
  show ?thesis by (simp add: s example_world_def)
qed

section \<open>Properties of the request timeout\<close>

text \<open>
  C8. Every streaming GET is claimed to carry a connection timeout of 15. The request
  issued by \<open>download_extract_test_data\<close> does; the one issued by
  \<open>download_and_extract_compressed_tar\<close> carries no timeout at all, whatever the URL,
  the destination, the environment and the world.
\<close>

theorem raw_url_request_has_no_timeout:
  "http_log (snd (download_and_extract_compressed_tar e u dest w))
     = http_log w @ [\<lparr>req_url = u, req_stream = True, req_timeout = None\<rparr>]
   \<and> http_log (snd (download_extract_test_data e u dest w))
     = http_log w @ [\<lparr>req_url = u, req_stream = True, req_timeout = Some 15\<rparr>]"
  by (auto simp: download_and_extract_compressed_tar_def download_and_extract_body_def
        download_extract_test_data_def extract_data_cautiously_def
        output_to_console_def print_def Let_def
      split: sum.splits prod.splits option.splits list.splits block.splits)

section \<open>Properties of the source dispatch\<close>



section \<open>Properties of plugin validation\<close>

text \<open>
  C9. For a yaml plugin file whose parsed mapping lacks the \<^verbatim>\<open>interface\<close> or the
  \<^verbatim>\<open>name\<close> key, \<open>validate\<close> ends with an unhandled \<^verbatim>\<open>KeyError\<close>; for a module
  plugin lacking one of the two attributes it ends with the parser error \<open>err_str\<close>;
  and no yaml plugin file that parses ever ends with that parser error.
\<close>

theorem validate_yaml_missing_key:
  "(drop (length fpath - 3) fpath \<noteq> ''.py'' \<and> yaml_safe_load pe fpath = Inr (YMapping m)
      \<and> (map_of m ''interface'' = None \<or> map_of m ''name'' = None) \<longrightarrow>
      (\<exists>k. validate pe fpath w = (Inl (KeyError k), w)))
   \<and> (drop (length fpath - 3) fpath = ''.py'' \<and> load_module_from_file pe fpath = Inr attrs
      \<and> (map_of attrs ''interface'' = None \<or> map_of attrs ''name'' = None) \<longrightarrow>
      validate pe fpath w = (Inl (ParserError (err_str fpath)), w))
   \<and> (drop (length fpath - 3) fpath \<noteq> ''.py'' \<and> yaml_safe_load pe fpath = Inr y \<longrightarrow>
      fst (validate pe fpath w) \<noteq> Inl (ParserError (err_str fpath)))"
  by (auto simp: validate_def load_plugin_def err_str_def split: sum.splits option.splits exn.splits yaml.splits prod.splits
      elim!: lookup_names.elims)

theorem validate_yaml_missing_key_witness:
  "validate example_plugin_env ''plugin.yaml'' example_world = (Inl (KeyError ''name''), example_world)
   \<and> validate example_plugin_env ''plugin.py'' example_world
       = (Inl (ParserError (err_str ''plugin.py'')), example_world)"
proof -
  have y: "drop (length ''plugin.yaml'' - 3) ''plugin.yaml'' \<noteq> ''.py''
           \<and> yaml_safe_load example_plugin_env ''plugin.yaml'' = Inr (YMapping [(''interface'', ''products'')])
           \<and> (map_of [(''interface'', ''products'')] ''interface'' = None
                \<or> map_of [(''interface'', ''products'')] ''name'' = None)"
    by (simp add: example_plugin_env_def)
  have p: "drop (length ''plugin.py'' - 3) ''plugin.py'' = ''.py''
           \<and> load_module_from_file example_plugin_env ''plugin.py'' = Inr [(''interface'', ''algorithms'')]
           \<and> (map_of [(''interface'', ''algorithms'')] ''interface'' = None
                \<or> map_of [(''interface'', ''algorithms'')] ''name'' = None)"
    by (simp add: example_plugin_env_def)
  from y p
    validate_yaml_missing_key [of "''plugin.yaml''" example_plugin_env "[(''interface'', ''products'')]" example_world]
    validate_yaml_missing_key [of "''plugin.py''" example_plugin_env _ _ "[(''interface'', ''algorithms'')]"]
  show ?thesis
    by (auto simp: validate_def load_plugin_def example_plugin_env_def)
qed

section \<open>Properties of the raw-URL branch on an existing directory\<close>

text \<open>
  C10. When the destination of \<open>download_and_extract_compressed_tar\<close> is an existing
  directory, the call ends with an exception, printed as the failure line and raised
  again; the files are left as they were, so nothing is extracted; and when the
  request itself went through, the exception is the \<^verbatim>\<open>IsADirectoryError\<close> of
  opening the destination for writing.
\<close>

theorem raw_url_existing_directory:
  assumes "map_of (files w) (abspath (getcwd e) dest) = Some Dir"
  shows "(\<exists>ex. fst (download_and_extract_compressed_tar e u dest w) = Inl ex
            \<and> (is_Exception ex \<longrightarrow>
                 console (snd (download_and_extract_compressed_tar e u dest w))
                   = console w @ [''Downloading and extracting '' @ u @ '' to '' @ dest @ ''...'',
                                  ''Failed to download or extract files.'']))
         \<and> files (snd (download_and_extract_compressed_tar e u dest w)) = files w
         \<and> (\<forall>r. http_get e \<lparr>req_url = u, req_stream = True, req_timeout = None\<rparr> = Inr r
                 \<and> \<not> (400 \<le> status_code r \<and> status_code r < 600)
                 \<and> headers_content_length r \<noteq> Malformed \<longrightarrow>
                 fst (download_and_extract_compressed_tar e u dest w) = Inl (IsADirectoryError dest))"
  using assms
  by (auto simp: download_and_extract_compressed_tar_def download_and_extract_body_def
        open_wb_def output_to_console_def print_def Let_def
      split: sum.splits)

theorem raw_url_existing_directory_witness:
  "map_of (files example_world) (abspath (getcwd (example_env 200 example_archive)) ''/data'') = Some Dir
   \<and> download_and_extract_compressed_tar (example_env 200 example_archive) ''http://h/x.tgz'' ''/data'' example_world
       = (Inl (IsADirectoryError ''/data''),
          example_world\<lparr>console := [''Downloading and extracting http://h/x.tgz to /data...'',
                                    ''Failed to download or extract files.''],
                        http_log := [\<lparr>req_url = ''http://h/x.tgz'', req_stream = True, req_timeout = None\<rparr>]\<rparr>)"
proof -
  have h: "map_of (files example_world) (abspath (getcwd (example_env 200 example_archive)) ''/data'') = Some Dir"
    by (simp add: example_world_def example_env_def abspath_def isabs_def normpath_def
          initial_slashes_def)
  from raw_url_existing_directory [OF h, of "''http://h/x.tgz''"] h
  show ?thesis
    by (simp add: download_and_extract_compressed_tar_def download_and_extract_body_def
          open_wb_def output_to_console_def print_def example_env_def example_world_def)
qed

end
